theory Spec2Isabelle
  imports Main "HOL-Library.AList"
begin

section \<open>The rollout script \<open>deploy.py\<close>\<close>

text \<open>
  A shallow embedding of \<open>deploy.py\<close>: the file tree under the working directory, the
  log, the network and the clock are explicit; every library call that can raise returns
  a sum whose left injection is the exception.
\<close>

subsection \<open>Formatting\<close>

text \<open>Python's \<open>str\<close> of an integer, as the f-strings of the script use it.\<close>

fun show_nat :: "nat \<Rightarrow> string" where
  "show_nat n =
     (if n < 10 then [''0123456789'' ! n]
      else show_nat (n div 10) @ [''0123456789'' ! (n mod 10)])"

declare show_nat.simps [simp del]

definition show_int :: "int \<Rightarrow> string" where
  "show_int i = (if i < 0 then ''-'' @ show_nat (nat (- i)) else show_nat (nat i))"

subsection \<open>The file tree\<close>

text \<open>
  A name is one path component (never empty, \<open>.\<close> or \<open>..\<close>, and free of the separator); a
  path is the list of its components, relative to the working directory. A file holds
  its bytes; a directory holds its entries, looked up by first match.
\<close>

type_synonym name = string
type_synonym path = "name list"

datatype node = File string | Dir "(name \<times> node) list"

fun lookup :: "node \<Rightarrow> path \<Rightarrow> node option" where
  "lookup n [] = Some n"
| "lookup (File c) (x # p) = None"
| "lookup (Dir es) (x # p) = (case map_of es x of None \<Rightarrow> None | Some m \<Rightarrow> lookup m p)"

text \<open>
  \<open>put\<close> writes a node at a path, creating the missing directories on the way as
  \<open>os.makedirs\<close> does; it has no result when a component of the path is a file.
\<close>

fun put :: "node \<Rightarrow> path \<Rightarrow> node \<Rightarrow> node option" where
  "put n [] new = Some new"
| "put (File c) (x # p) new = None"
| "put (Dir es) (x # p) new =
     (case put (case map_of es x of None \<Rightarrow> Dir [] | Some m \<Rightarrow> m) p new of
        None \<Rightarrow> None
      | Some m' \<Rightarrow> Some (Dir (AList.update x m' es)))"

fun remove :: "node \<Rightarrow> path \<Rightarrow> node" where
  "remove n [] = n"
| "remove (File c) (x # p) = File c"
| "remove (Dir es) [x] = Dir (AList.delete x es)"
| "remove (Dir es) (x # y # p) =
     (case map_of es x of
        None \<Rightarrow> Dir es
      | Some m \<Rightarrow> Dir (AList.update x (remove m (y # p)) es))"

text \<open>What a failed operation leaves at its target: a node, or nothing.\<close>

definition set_at :: "node \<Rightarrow> path \<Rightarrow> node option \<Rightarrow> node" where
  "set_at t p r =
     (case r of
        None \<Rightarrow> remove t p
      | Some n \<Rightarrow> (case put t p n of None \<Rightarrow> t | Some t' \<Rightarrow> t'))"

definition path_str :: "path \<Rightarrow> string" where
  "path_str p = (case p of [] \<Rightarrow> ''.'' | x # xs \<Rightarrow> foldl (\<lambda>s y. s @ ''/'' @ y) x xs)"

subsection \<open>Exceptions, log and world\<close>

datatype exc =
    FileNotFoundError path
  | NotADirectoryError path
  | IsADirectoryError path
  | FileExistsError path
  | OSError string
  | RequestException string

text \<open>
  Python's \<open>str\<close> of an exception. The errors that carry a file name print it as
  \<open>repr\<close> does, between single quotes.
\<close>

definition quoted :: "string \<Rightarrow> string" where
  "quoted s = [CHR 0x27] @ s @ [CHR 0x27]"

definition exc_str :: "exc \<Rightarrow> string" where
  "exc_str e =
     (case e of
        FileNotFoundError p \<Rightarrow>
          ''[Errno 2] No such file or directory: '' @ quoted (path_str p)
      | NotADirectoryError p \<Rightarrow> ''[Errno 20] Not a directory: '' @ quoted (path_str p)
      | IsADirectoryError p \<Rightarrow> ''[Errno 21] Is a directory: '' @ quoted (path_str p)
      | FileExistsError p \<Rightarrow> ''[Errno 17] File exists: '' @ quoted (path_str p)
      | OSError m \<Rightarrow> m
      | RequestException m \<Rightarrow> m)"

datatype level = INFO | WARNING | ERROR | CRITICAL

text \<open>
  The outcome the operating system gives the next file operation: it goes through, or it
  fails with a message and leaves something (or nothing) at the target.
\<close>

datatype fault = IoOk | IoFail string "node option"

datatype event =
    Probe string int
  | Bind string int
  | ServeThread string int
  | Get string int
  | Sleep int
  | Shutdown string int

record world =
  fs :: node
  log :: "(level \<times> string) list"
  faults :: "fault list"
  trace :: "event list"

text \<open>What \<open>connect_ex\<close> gives: an errno (0 when the connection is accepted) or an exception.\<close>

datatype probe = Errno int | ProbeRaises exc

datatype reply = Status int | Raises exc

text \<open>
  The surroundings the script reads: the formatted time of \<open>datetime.now()\<close>, the answer
  of a connection attempt, whether a bind goes through, and the reply to the i-th GET of
  a health check.
\<close>

record env =
  now :: string
  connect_ex :: "string \<Rightarrow> int \<Rightarrow> probe"
  tcp_bind :: "string \<Rightarrow> int \<Rightarrow> exc option"
  http_get :: "string \<Rightarrow> int \<Rightarrow> nat \<Rightarrow> reply"

text \<open>
  The configuration, as \<open>load_config\<close> returns it. The \<open>security\<close> key and the
  \<open>headers\<close> key under it may each be absent.
\<close>

record config =
  server_host :: string
  server_port :: int
  server_root_dir :: name
  health_check_endpoint :: string
  health_check_retries :: int
  health_check_timeout :: int
  security :: "(string \<times> string) list option option"

definition BACKUP_DIR :: name where
  "BACKUP_DIR = ''deploy_backups''"

definition logger :: "level \<Rightarrow> string \<Rightarrow> world \<Rightarrow> world" where
  "logger l m w = w\<lparr>log := log w @ [(l, m)]\<rparr>"

definition emit :: "event \<Rightarrow> world \<Rightarrow> world" where
  "emit e w = w\<lparr>trace := trace w @ [e]\<rparr>"

subsection \<open>The library's file operations\<close>

definition io :: "path \<Rightarrow> node option \<Rightarrow> world \<Rightarrow> (exc + unit) \<times> world" where
  "io target r w =
     (case faults w of
        [] \<Rightarrow> (Inr (), w\<lparr>fs := set_at (fs w) target r\<rparr>)
      | IoOk # rest \<Rightarrow> (Inr (), w\<lparr>fs := set_at (fs w) target r, faults := rest\<rparr>)
      | IoFail m left # rest \<Rightarrow>
          (Inl (OSError m), w\<lparr>fs := set_at (fs w) target left, faults := rest\<rparr>))"

definition exists :: "path \<Rightarrow> world \<Rightarrow> bool" where
  "exists p w = (lookup (fs w) p \<noteq> None)"

definition isdir :: "path \<Rightarrow> world \<Rightarrow> bool" where
  "isdir p w = (case lookup (fs w) p of Some (Dir es) \<Rightarrow> True | _ \<Rightarrow> False)"

definition listdir :: "path \<Rightarrow> world \<Rightarrow> exc + name list" where
  "listdir p w =
     (case lookup (fs w) p of
        None \<Rightarrow> Inl (FileNotFoundError p)
      | Some (File c) \<Rightarrow> Inl (NotADirectoryError p)
      | Some (Dir es) \<Rightarrow> Inr (map fst es))"

definition makedirs :: "path \<Rightarrow> world \<Rightarrow> (exc + unit) \<times> world" where
  "makedirs p w =
     (case lookup (fs w) p of
        Some n \<Rightarrow> (Inl (FileExistsError p), w)
      | None \<Rightarrow>
          (case put (fs w) p (Dir []) of
             None \<Rightarrow> (Inl (NotADirectoryError p), w)
           | Some t \<Rightarrow> io p (Some (Dir [])) w))"

definition rmtree :: "path \<Rightarrow> world \<Rightarrow> (exc + unit) \<times> world" where
  "rmtree p w =
     (case lookup (fs w) p of
        None \<Rightarrow> (Inl (FileNotFoundError p), w)
      | Some (File c) \<Rightarrow> (Inl (NotADirectoryError p), w)
      | Some (Dir es) \<Rightarrow> io p None w)"

definition copytree :: "path \<Rightarrow> path \<Rightarrow> world \<Rightarrow> (exc + unit) \<times> world" where
  "copytree src dst w =
     (case lookup (fs w) src of
        None \<Rightarrow> (Inl (FileNotFoundError src), w)
      | Some (File c) \<Rightarrow> (Inl (NotADirectoryError src), w)
      | Some (Dir es) \<Rightarrow>
          (case lookup (fs w) dst of
             Some n \<Rightarrow> (Inl (FileExistsError dst), w)
           | None \<Rightarrow>
               (case put (fs w) dst (Dir es) of
                  None \<Rightarrow> (Inl (NotADirectoryError dst), w)
                | Some t \<Rightarrow> io dst (Some (Dir es)) w)))"

text \<open>
  \<open>shutil.copy2\<close>: onto a directory it copies into that directory, under the name of the
  source; otherwise it overwrites or creates the file, whose parent must be a directory:
  a regular file on the way to the destination gives \<open>NotADirectoryError\<close>, a missing
  parent \<open>FileNotFoundError\<close>.
\<close>

definition copy2 :: "path \<Rightarrow> path \<Rightarrow> world \<Rightarrow> (exc + unit) \<times> world" where
  "copy2 src dst w =
     (case lookup (fs w) src of
        None \<Rightarrow> (Inl (FileNotFoundError src), w)
      | Some (Dir es) \<Rightarrow> (Inl (IsADirectoryError src), w)
      | Some (File c) \<Rightarrow>
          (case lookup (fs w) dst of
             Some (Dir ds) \<Rightarrow>
               (case lookup (fs w) (dst @ [last src]) of
                  Some (Dir xs) \<Rightarrow> (Inl (IsADirectoryError (dst @ [last src])), w)
                | _ \<Rightarrow> io (dst @ [last src]) (Some (File c)) w)
           | Some (File old) \<Rightarrow> io dst (Some (File c)) w
           | None \<Rightarrow>
               (if isdir (butlast dst) w then io dst (Some (File c)) w
                else if put (fs w) dst (File c) = None then (Inl (NotADirectoryError dst), w)
                else (Inl (FileNotFoundError dst), w))))"

subsection \<open>The stages of the rollout\<close>

text \<open>
  \<open>check_dependencies\<close>: the \<open>requests\<close> module is taken to be installed, so the import
  goes through and only the log line remains. \<open>load_config\<close> is outside the model: the
  configuration is an argument.
\<close>

definition check_dependencies :: "world \<Rightarrow> world" where
  "check_dependencies w = logger INFO ''Checking dependencies...'' w"

definition setup_environment :: "config \<Rightarrow> world \<Rightarrow> (exc + unit) \<times> world" where
  "setup_environment cfg w =
     (let w1 = logger INFO ''Setting up environment...'' w;
          root_dir = server_root_dir cfg;
          (r, w2) =
            (if \<not> exists [root_dir] w1 then
               (case makedirs [root_dir] w1 of
                  (Inl e, w') \<Rightarrow> (Inl e, w')
                | (Inr u, w') \<Rightarrow>
                    (Inr u, logger INFO (''Created root directory: '' @ root_dir) w'))
             else (Inr (), w1))
      in case r of
           Inl e \<Rightarrow> (Inl e, w2)
         | Inr u \<Rightarrow>
             (if \<not> exists [BACKUP_DIR] w2 then makedirs [BACKUP_DIR] w2 else (Inr (), w2)))"

definition backup_current_version ::
  "env \<Rightarrow> config \<Rightarrow> world \<Rightarrow> (exc + path option) \<times> world" where
  "backup_current_version ev cfg w =
     (let root_dir = server_root_dir cfg in
      if exists [root_dir] w then
        (case listdir [root_dir] w of
           Inl e \<Rightarrow> (Inl e, w)
         | Inr names \<Rightarrow>
             (if names \<noteq> [] then
                (let timestamp = now ev;
                     backup_path = [BACKUP_DIR, ''backup_'' @ timestamp]
                 in case copytree [root_dir] backup_path w of
                      (Inl e, w') \<Rightarrow> (Inl e, w')
                    | (Inr u, w') \<Rightarrow>
                        (Inr (Some backup_path),
                         logger INFO (''Backup created at: '' @ path_str backup_path) w'))
              else (Inr None, w)))
      else (Inr None, w))"

definition excludes :: "config \<Rightarrow> name list" where
  "excludes cfg =
     [server_root_dir cfg, BACKUP_DIR, ''.git'', ''.vscode'', ''__pycache__'', ''deploy.log'',
      ''deploy.py'', ''deploy_config.json'', ''deploy_to_github.ps1'', ''mirror_script.py'',
      ''summon_demon.ps1'']"

definition startswith_dot :: "name \<Rightarrow> bool" where
  "startswith_dot item = (case item of [] \<Rightarrow> False | c # cs \<Rightarrow> c = CHR ''.'')"

definition skipped :: "config \<Rightarrow> name \<Rightarrow> bool" where
  "skipped cfg item = (item \<in> set (excludes cfg) \<or> startswith_dot item)"

text \<open>The body of the loop of \<open>deploy_files\<close> for an item that is not skipped.\<close>

definition deploy_item :: "config \<Rightarrow> name \<Rightarrow> world \<Rightarrow> (exc + unit) \<times> world" where
  "deploy_item cfg item w =
     (let src = [item]; dst = [server_root_dir cfg, item] in
      if isdir src w then
        (case (if exists dst w then rmtree dst w else (Inr (), w)) of
           (Inl e, w') \<Rightarrow> (Inl e, w')
         | (Inr u, w') \<Rightarrow> copytree src dst w')
      else copy2 src dst w)"

fun deploy_loop :: "config \<Rightarrow> name list \<Rightarrow> nat \<Rightarrow> world \<Rightarrow> (exc + nat) \<times> world" where
  "deploy_loop cfg [] count w = (Inr count, w)"
| "deploy_loop cfg (item # items) count w =
     (if skipped cfg item then deploy_loop cfg items count w
      else
        (case deploy_item cfg item w of
           (Inl e, w') \<Rightarrow> (Inl e, w')
         | (Inr u, w') \<Rightarrow> deploy_loop cfg items (count + 1) w'))"

text \<open>
  The value \<open>deploy_files\<close> returns is Python's \<open>None\<close>: the function has no
  \<open>return\<close>. It is modelled as \<open>None\<close> of \<open>nat option\<close>, where \<open>Some n\<close> would be the
  integer \<open>n\<close>.
\<close>

definition deploy_files :: "config \<Rightarrow> world \<Rightarrow> (exc + nat option) \<times> world" where
  "deploy_files cfg w =
     (let w1 = logger INFO ''Deploying files...'' w in
      case listdir [] w1 of
        Inl e \<Rightarrow> (Inl e, w1)
      | Inr items \<Rightarrow>
          (case deploy_loop cfg items 0 w1 of
             (Inl e, w2) \<Rightarrow> (Inl e, w2)
           | (Inr count, w2) \<Rightarrow>
               (Inr None,
                logger INFO
                  (''Deployed '' @ show_nat count @ '' items to '' @ server_root_dir cfg) w2)))"

subsection \<open>Health check\<close>

definition probe_host :: "config \<Rightarrow> string" where
  "probe_host cfg =
     (if server_host cfg \<noteq> ''0.0.0.0'' then server_host cfg else ''127.0.0.1'')"

definition health_url :: "config \<Rightarrow> string" where
  "health_url cfg =
     ''http://'' @ probe_host cfg @ '':'' @ show_int (server_port cfg)
       @ health_check_endpoint cfg"

text \<open>
  The loop over \<open>range(retries)\<close>: its result is \<open>True\<close> when the body returned from
  inside the loop, \<open>False\<close> when the range is used up.
\<close>

fun health_attempts ::
  "env \<Rightarrow> config \<Rightarrow> string \<Rightarrow> nat list \<Rightarrow> world \<Rightarrow> bool \<times> world" where
  "health_attempts ev cfg url [] w = (False, w)"
| "health_attempts ev cfg url (i # is) w =
     (let w1 = emit (Get url (health_check_timeout cfg)) w in
      case http_get ev url (health_check_timeout cfg) i of
        Status c \<Rightarrow>
          (if c = 200 then (True, logger INFO ''Health check PASSED.'' w1)
           else
             health_attempts ev cfg url is
               (emit (Sleep 1)
                  (logger WARNING (''Health check returned status code: '' @ show_int c) w1)))
      | Raises e \<Rightarrow>
          health_attempts ev cfg url is
            (emit (Sleep 1)
               (logger WARNING
                  (''Health check attempt '' @ show_nat (i + 1) @ '' failed: '' @ exc_str e)
                  w1)))"

definition health_check :: "env \<Rightarrow> config \<Rightarrow> world \<Rightarrow> bool \<times> world" where
  "health_check ev cfg w =
     (let url = health_url cfg;
          w1 = logger INFO (''Running health check on '' @ url @ ''...'') w;
          retries = health_check_retries cfg
      in case health_attempts ev cfg url [0..<nat retries] w1 of
           (True, w2) \<Rightarrow> (True, w2)
         | (False, w2) \<Rightarrow> (False, logger ERROR ''Health check FAILED.'' w2))"

text \<open>The number of GET requests a trace holds.\<close>

definition gets :: "event list \<Rightarrow> nat" where
  "gets t = length (filter (\<lambda>e. case e of Get u s \<Rightarrow> True | _ \<Rightarrow> False) t)"

definition binds :: "event list \<Rightarrow> nat" where
  "binds t = length (filter (\<lambda>e. case e of Bind h p \<Rightarrow> True | _ \<Rightarrow> False) t)"

subsection \<open>Server\<close>

text \<open>
  The handle of a running server is the address it is bound to; \<open>None\<close> is Python's
  \<open>None\<close>. Every exception inside the \<open>try\<close> is caught and logged.
\<close>

definition start_server :: "env \<Rightarrow> config \<Rightarrow> world \<Rightarrow> (string \<times> int) option \<times> world" where
  "start_server ev cfg w =
     (let host = server_host cfg; port = server_port cfg;
          w1 = emit (Probe (probe_host cfg) port) w
      in case connect_ex ev (probe_host cfg) port of
           ProbeRaises e \<Rightarrow> (None, logger ERROR (''Failed to start server: '' @ exc_str e) w1)
         | Errno n \<Rightarrow>
             (if n = 0 then
                (None, logger ERROR (''Port '' @ show_int port @ '' is already in use.'') w1)
              else
                (let w2 = emit (Bind host port) w1 in
                 case tcp_bind ev host port of
                   Some e \<Rightarrow>
                     (None, logger ERROR (''Failed to start server: '' @ exc_str e) w2)
                 | None \<Rightarrow>
                     (Some (host, port),
                      emit (ServeThread host port)
                        (logger INFO
                           (''Serving HTTP on '' @ host @ '' port '' @ show_int port
                              @ '' (http://'' @ host @ '':'' @ show_int port @ ''/) ...'')
                           w2)))))"

text \<open>
  The handler: \<open>send_header\<close> appends a line to the header buffer; \<open>end_headers\<close> of the
  base class sends the buffer as it stands, so the result is the header block of the
  response. The argument \<open>buf\<close> holds the lines the base class has buffered before.
\<close>

definition send_header :: "string \<Rightarrow> string \<Rightarrow> (string \<times> string) list \<Rightarrow> (string \<times> string) list" where
  "send_header k v buf = buf @ [(k, v)]"

definition end_headers :: "config option \<Rightarrow> (string \<times> string) list \<Rightarrow> (string \<times> string) list" where
  "end_headers c buf =
     (case c of
        None \<Rightarrow> buf
      | Some cfg \<Rightarrow>
          (case security cfg of
             None \<Rightarrow> buf
           | Some sec \<Rightarrow>
               foldl (\<lambda>b (header, val). send_header header val b) buf
                 (case sec of None \<Rightarrow> [] | Some items \<Rightarrow> items)))"

subsection \<open>Rollback and the controller\<close>

text \<open>The body of the \<open>try\<close> in \<open>rollback\<close>.\<close>

definition rollback_try :: "path \<Rightarrow> config \<Rightarrow> world \<Rightarrow> (exc + unit) \<times> world" where
  "rollback_try backup_path cfg w =
     (let root_dir = server_root_dir cfg in
      case (if exists [root_dir] w then rmtree [root_dir] w else (Inr (), w)) of
        (Inl e, w') \<Rightarrow> (Inl e, w')
      | (Inr u, w') \<Rightarrow>
          (case copytree backup_path [root_dir] w' of
             (Inl e, w'') \<Rightarrow> (Inl e, w'')
           | (Inr u', w'') \<Rightarrow> (Inr (), logger INFO ''Rollback successful.'' w'')))"

text \<open>
  \<open>rollback\<close>: the left injection of its result would be an exception leaving the
  function.
\<close>

definition rollback :: "path option \<Rightarrow> config \<Rightarrow> world \<Rightarrow> (exc + unit) \<times> world" where
  "rollback backup_path cfg w =
     (case backup_path of
        None \<Rightarrow> (Inr (), logger WARNING ''No backup path provided for rollback.'' w)
      | Some p \<Rightarrow>
          (let w1 = logger WARNING ''Initiating ROLLBACK...'' w in
           case rollback_try p cfg w1 of
             (Inl e, w2) \<Rightarrow> (Inr (), logger CRITICAL (''Rollback failed: '' @ exc_str e) w2)
           | (Inr u, w2) \<Rightarrow> (Inr (), w2)))"

text \<open>
  How a run ends: the process exits with a code, an exception reaches the top level, or
  the server is up and \<open>main\<close> has entered its idle loop.
\<close>

datatype outcome = Exit int | Uncaught exc | Online "string \<times> int"

definition rollback_if :: "path option \<Rightarrow> config \<Rightarrow> world \<Rightarrow> outcome \<times> world" where
  "rollback_if backup_path cfg w =
     (if backup_path \<noteq> None then
        (case rollback backup_path cfg w of
           (Inl e, w') \<Rightarrow> (Uncaught e, w')
         | (Inr u, w') \<Rightarrow> (Exit 1, w'))
      else (Exit 1, w))"

definition main :: "env \<Rightarrow> config \<Rightarrow> world \<Rightarrow> outcome \<times> world" where
  "main ev config w =
     (let w0 = logger INFO ''Starting deployment process...'' w;
          w1 = check_dependencies w0
      in case setup_environment config w1 of
           (Inl e, w2) \<Rightarrow> (Uncaught e, w2)
         | (Inr u, w2) \<Rightarrow>
      (case backup_current_version ev config w2 of
           (Inl e, w3) \<Rightarrow> (Uncaught e, w3)
         | (Inr backup_path, w3) \<Rightarrow>
      (case deploy_files config w3 of
           (Inl e, w4) \<Rightarrow>
             rollback_if backup_path config
               (logger ERROR (''Deployment failed: '' @ exc_str e) w4)
         | (Inr r, w4) \<Rightarrow>
      (case start_server ev config w4 of
           (None, w5) \<Rightarrow> (Exit 1, logger ERROR ''Server failed to start.'' w5)
         | (Some server, w5) \<Rightarrow>
      (case health_check ev config w5 of
           (False, w6) \<Rightarrow>
             rollback_if backup_path config
               (emit (Shutdown (fst server) (snd server))
                  (logger ERROR ''Deployment verification failed.'' w6))
         | (True, w6) \<Rightarrow>
             (Online server,
              logger INFO ''Deployment SUCCESSFUL. System is online.'' w6))))))"

subsection \<open>Sample inputs\<close>

definition sample_config :: config where
  "sample_config =
     \<lparr>server_host = ''0.0.0.0'', server_port = 8080, server_root_dir = ''www'',
      health_check_endpoint = ''/'', health_check_retries = 3, health_check_timeout = 5,
      security = Some (Some [(''X-Frame-Options'', ''DENY''), (''Content-type'', ''text/plain'')])\<rparr>"

text \<open>A server that answers 503 to the first GET and 200 from the second on.\<close>

definition sample_env :: env where
  "sample_env =
     \<lparr>now = ''20240101_120000'', connect_ex = (\<lambda>h p. Errno 111), tcp_bind = (\<lambda>h p. None),
      http_get = (\<lambda>u t i. if i = 0 then Status 503 else Status 200)\<rparr>"

text \<open>The same surroundings with the port already taken by another listener.\<close>

definition busy_env :: env where
  "busy_env = sample_env\<lparr>connect_ex := (\<lambda>h p. Errno 0)\<rparr>"

definition sample_world :: world where
  "sample_world =
     \<lparr>fs = Dir [(''index.html'', File ''new''), (''www'', Dir [(''index.html'', File ''old'')])],
      log = [], faults = [], trace = []\<rparr>"

text \<open>The worlds of a run from \<open>sample_world\<close>: after set-up, after backup, after publishing.\<close>

definition after_setup :: world where
  "after_setup =
     \<lparr>fs = Dir [(''index.html'', File ''new''),
                (''www'', Dir [(''index.html'', File ''old'')]),
                (''deploy_backups'', Dir [])],
      log = [(INFO, ''Starting deployment process...''),
             (INFO, ''Checking dependencies...''),
             (INFO, ''Setting up environment...'')],
      faults = [], trace = []\<rparr>"

definition after_backup :: world where
  "after_backup =
     \<lparr>fs = Dir [(''index.html'', File ''new''),
                (''www'', Dir [(''index.html'', File ''old'')]),
                (''deploy_backups'',
                 Dir [(''backup_20240101_120000'', Dir [(''index.html'', File ''old'')])])],
      log = [(INFO, ''Starting deployment process...''),
             (INFO, ''Checking dependencies...''),
             (INFO, ''Setting up environment...''),
             (INFO, ''Backup created at: deploy_backups/backup_20240101_120000'')],
      faults = [], trace = []\<rparr>"

definition after_deploy :: world where
  "after_deploy =
     \<lparr>fs = Dir [(''index.html'', File ''new''),
                (''www'', Dir [(''index.html'', File ''new'')]),
                (''deploy_backups'',
                 Dir [(''backup_20240101_120000'', Dir [(''index.html'', File ''old'')])])],
      log = [(INFO, ''Starting deployment process...''),
             (INFO, ''Checking dependencies...''),
             (INFO, ''Setting up environment...''),
             (INFO, ''Backup created at: deploy_backups/backup_20240101_120000''),
             (INFO, ''Deploying files...''),
             (INFO, ''Deployed 1 items to www'')],
      faults = [], trace = []\<rparr>"

text \<open>
  A world in which the removal of the content root goes through and the copy after it
  fails, leaving nothing behind.
\<close>

definition rollback_world :: world where
  "rollback_world =
     \<lparr>fs = Dir [(''deploy_backups'', Dir [(''b'', Dir [(''index.html'', File ''old'')])]),
                (''www'', Dir [(''index.html'', File ''new'')])],
      log = [], faults = [IoOk, IoFail ''disk full'' None], trace = []\<rparr>"

text \<open>A world whose content root exists and is empty.\<close>

definition empty_root_world :: world where
  "empty_root_world = \<lparr>fs = Dir [(''www'', Dir [])], log = [], faults = [], trace = []\<rparr>"

text \<open>No file operation still to come is made to fail.\<close>

definition fault_free :: "world \<Rightarrow> bool" where
  "fault_free w = list_all (\<lambda>f. f = IoOk) (faults w)"

text \<open>
  A world in which the first copy of publishing goes through and the second fails, and
  a world whose content root holds a directory under the name of a source file.
\<close>

definition publish_fail_world :: world where
  "publish_fail_world =
     \<lparr>fs = Dir [(''a'', File ''new''), (''b'', File ''new''), (''www'', Dir [])],
      log = [], faults = [IoOk, IoFail ''disk full'' None], trace = []\<rparr>"

definition conflict_world :: world where
  "conflict_world =
     \<lparr>fs = Dir [(''a'', File ''new''), (''www'', Dir [(''a'', Dir [(''old'', File ''x'')])])],
      log = [], faults = [], trace = []\<rparr>"

text \<open>The source entry is not a directory while the content root has a directory of its name.\<close>

definition kind_conflict :: "config \<Rightarrow> name \<Rightarrow> world \<Rightarrow> bool" where
  "kind_conflict cfg item w = (\<not> isdir [item] w \<and> isdir [server_root_dir cfg, item] w)"




text \<open>Two paths diverge when they differ at a component both have.\<close>

fun diverge :: "path \<Rightarrow> path \<Rightarrow> bool" where
  "diverge (x # p) (y # q) = (x \<noteq> y \<or> diverge p q)"
| "diverge p q = False"

section \<open>Properties\<close>

subsection \<open>The file tree\<close>

lemma diverge_append: "diverge p q \<Longrightarrow> diverge (p @ s) q"
  by (induction p q rule: diverge.induct) auto

lemma lookup_put_same: "put t p n = Some t' \<Longrightarrow> lookup t' p = Some n"
  by (induction t p n arbitrary: t' rule: put.induct)
     (auto simp: update_conv' split: option.splits)

lemma lookup_put_diverge:
  "put t p n = Some t' \<Longrightarrow> diverge p q \<Longrightarrow> lookup t' q = lookup t q"
proof (induction t p n arbitrary: t' q rule: put.induct)
  case (3 es x p new)
  from "3.prems"(2) obtain y q' where q: "q = y # q'" by (cases q) auto
  from "3.prems"(1) obtain m' where
    m': "put (case map_of es x of None \<Rightarrow> Dir [] | Some m \<Rightarrow> m) p new = Some m'"
    and t': "t' = Dir (AList.update x m' es)"
    by (auto split: option.splits)
  show ?case
  proof (cases "y = x")
    case False
    then show ?thesis by (simp add: q t' update_conv')
  next
    case True
    with "3.prems"(2) q have d: "diverge p q'" by simp
    then obtain z q'' where q': "q' = z # q''" by (cases p; cases q') auto
    from "3.IH"[OF m' d] show ?thesis
      by (simp add: q t' True update_conv' q' split: option.splits)
  qed
qed auto


lemma lookup_remove_diverge: "diverge p q \<Longrightarrow> lookup (remove t p) q = lookup t q"
proof (induction t p arbitrary: q rule: remove.induct)
  case (3 es x)
  then show ?case by (cases q) (auto simp: delete_conv')
next
  case (4 es x y p)
  then show ?case by (cases q) (auto simp: update_conv' split: option.splits)
qed auto

lemma lookup_set_at_diverge: "diverge p q \<Longrightarrow> lookup (set_at t p r) q = lookup t q"
  by (auto simp: set_at_def lookup_remove_diverge lookup_put_diverge split: option.splits)

subsection \<open>Health check\<close>

lemma gets_emit_Get: "gets (trace (emit (Get u t) w)) = Suc (gets (trace w))"
  by (simp add: gets_def emit_def)

lemma gets_emit_Sleep: "gets (trace (emit (Sleep n) w)) = gets (trace w)"
  by (simp add: gets_def emit_def)

lemma trace_logger: "trace (logger l m w) = trace w"
  by (simp add: logger_def)

lemma health_attempts_fst:
  "fst (health_attempts ev cfg url is w)
     = (\<exists>i\<in>set is. http_get ev url (health_check_timeout cfg) i = Status 200)"
  by (induction "is" arbitrary: w) (auto simp: Let_def split: reply.splits)

lemma health_attempts_gets:
  "gets (trace (snd (health_attempts ev cfg url is w)))
     = gets (trace w)
       + min (length is)
           (Suc (length (takeWhile
              (\<lambda>i. http_get ev url (health_check_timeout cfg) i \<noteq> Status 200) is)))"
  by (induction "is" arbitrary: w)
     (auto simp: Let_def gets_emit_Get gets_emit_Sleep trace_logger split: reply.splits)

lemma health_check_fst:
  "fst (health_check ev cfg w)
     = fst (health_attempts ev cfg (health_url cfg) [0..<nat (health_check_retries cfg)]
              (logger INFO (''Running health check on '' @ health_url cfg @ ''...'') w))"
  by (simp add: health_check_def Let_def split: prod.splits bool.splits)

lemma health_check_trace:
  "trace (snd (health_check ev cfg w))
     = trace (snd (health_attempts ev cfg (health_url cfg) [0..<nat (health_check_retries cfg)]
                (logger INFO (''Running health check on '' @ health_url cfg @ ''...'') w)))"
  by (simp add: health_check_def Let_def trace_logger split: prod.splits bool.splits)

text \<open>
  C4. \<open>health_check\<close> is a total function to a boolean, so no failed attempt raises past
  it. It issues at most \<open>retries\<close> GET requests; it returns \<open>True\<close> if and only if one of
  the attempts within the bound is answered with status 200; the number of requests is
  the index of the first such attempt plus one, or \<open>retries\<close> when there is none. With
  three retries and a server that answers 200 from the second attempt on, it returns
  \<open>True\<close> after exactly two requests.
\<close>

theorem health_check_true_iff_some_200:
  "(fst (health_check ev cfg w)
      \<longleftrightarrow> (\<exists>i<nat (health_check_retries cfg).
             http_get ev (health_url cfg) (health_check_timeout cfg) i = Status 200))
   \<and> gets (trace (snd (health_check ev cfg w)))
       = gets (trace w)
         + min (nat (health_check_retries cfg))
             (Suc (length (takeWhile
                (\<lambda>i. http_get ev (health_url cfg) (health_check_timeout cfg) i \<noteq> Status 200)
                [0..<nat (health_check_retries cfg)])))
   \<and> gets (trace (snd (health_check ev cfg w))) \<le> gets (trace w) + nat (health_check_retries cfg)
   \<and> (health_check_retries cfg = 3
        \<and> http_get ev (health_url cfg) (health_check_timeout cfg) 0 \<noteq> Status 200
        \<and> http_get ev (health_url cfg) (health_check_timeout cfg) 1 = Status 200
       \<longrightarrow> fst (health_check ev cfg w)
           \<and> gets (trace (snd (health_check ev cfg w))) = gets (trace w) + 2)"
proof -
  let ?n = "nat (health_check_retries cfg)"
  let ?bad = "\<lambda>i. http_get ev (health_url cfg) (health_check_timeout cfg) i \<noteq> Status 200"
  have a: "fst (health_check ev cfg w) \<longleftrightarrow> (\<exists>i<?n. \<not> ?bad i)"
    by (auto simp: health_check_fst health_attempts_fst)
  have b: "gets (trace (snd (health_check ev cfg w)))
             = gets (trace w) + min ?n (Suc (length (takeWhile ?bad [0..<?n])))"
    by (simp add: health_check_trace health_attempts_gets trace_logger)
  have c: "gets (trace (snd (health_check ev cfg w))) \<le> gets (trace w) + ?n"
    using b by simp
  have d: "fst (health_check ev cfg w)
             \<and> gets (trace (snd (health_check ev cfg w))) = gets (trace w) + 2"
    if h: "health_check_retries cfg = 3" "?bad 0" "\<not> ?bad 1"
  proof -
    have n: "[0..<?n] = [0, 1, 2]" using h(1) by (simp add: upt_rec)
    have "takeWhile ?bad [0..<?n] = [0]" using h(2,3) by (simp add: n)
    moreover have "\<exists>i<?n. \<not> ?bad i" using h(1,3) by (intro exI[of _ 1]) simp
    ultimately show ?thesis using a b h(1) by simp
  qed
  from a b c d show ?thesis by blast
qed

theorem health_check_true_iff_some_200_witness:
  "fst (health_check sample_env sample_config sample_world)
   \<and> gets (trace (snd (health_check sample_env sample_config sample_world))) = 2"
proof -
  have h: "health_check_retries sample_config = 3
           \<and> http_get sample_env (health_url sample_config)
                (health_check_timeout sample_config) 0 \<noteq> Status 200
           \<and> http_get sample_env (health_url sample_config)
                (health_check_timeout sample_config) 1 = Status 200"
    by (simp add: sample_config_def sample_env_def)
  have "fst (health_check sample_env sample_config sample_world)
        \<and> gets (trace (snd (health_check sample_env sample_config sample_world)))
            = gets (trace sample_world) + 2"
    by (rule health_check_true_iff_some_200
          [of sample_env sample_config sample_world,
           THEN conjunct2, THEN conjunct2, THEN conjunct2, THEN mp, OF h])
  then show ?thesis by (simp add: sample_world_def gets_def)
qed

text \<open>
  C10. With \<open>retries = 0\<close> the range of the loop is empty: \<open>health_check\<close> returns
  \<open>False\<close> and the trace of requests is the one it started with.
\<close>

theorem health_check_zero_retries:
  "fst (health_check ev (cfg\<lparr>health_check_retries := 0\<rparr>) w) = False
   \<and> trace (snd (health_check ev (cfg\<lparr>health_check_retries := 0\<rparr>) w)) = trace w
   \<and> gets (trace (snd (health_check ev (cfg\<lparr>health_check_retries := 0\<rparr>) w))) = gets (trace w)"
  by (simp add: health_check_def Let_def trace_logger)

subsection \<open>The sample run, stage by stage\<close>

lemma fs_logger: "fs (logger l m w) = fs w"
  by (simp add: logger_def)

lemma fs_emit: "fs (emit e w) = fs w"
  by (simp add: emit_def)

lemma run_setup:
  "setup_environment sample_config
     (check_dependencies (logger INFO ''Starting deployment process...'' sample_world))
   = (Inr (), after_setup)"
  by (simp add: setup_environment_def check_dependencies_def logger_def sample_world_def
        sample_config_def after_setup_def exists_def BACKUP_DIR_def makedirs_def io_def
        set_at_def Let_def)

lemma run_backup:
  "backup_current_version busy_env sample_config after_setup
   = (Inr (Some [''deploy_backups'', ''backup_20240101_120000'']), after_backup)"
  by (simp add: backup_current_version_def busy_env_def sample_env_def sample_config_def
        after_setup_def after_backup_def exists_def listdir_def copytree_def BACKUP_DIR_def
        io_def set_at_def logger_def path_str_def Let_def)

lemma run_deploy: "deploy_files sample_config after_backup = (Inr None, after_deploy)"
  by (simp add: deploy_files_def listdir_def after_backup_def after_deploy_def sample_config_def
        logger_def skipped_def excludes_def startswith_dot_def BACKUP_DIR_def deploy_item_def
        isdir_def exists_def copy2_def io_def set_at_def show_nat.simps)

lemma run_server:
  "start_server busy_env sample_config after_deploy
   = (None,
      logger ERROR ''Port 8080 is already in use.''
        (emit (Probe ''127.0.0.1'' 8080) after_deploy))"
  by (simp add: start_server_def busy_env_def sample_env_def sample_config_def probe_host_def
        show_int_def show_nat.simps Let_def)

subsection \<open>Server\<close>

lemma fs_start_server: "fs (snd (start_server ev cfg w)) = fs w"
  by (simp add: start_server_def Let_def fs_logger fs_emit split: probe.splits option.splits)

text \<open>
  C8. When the probe of (host-or-loopback, port) is accepted, \<open>start_server\<close> logs that
  the port is in use and returns no handle; the only event it adds to the trace is the
  probe, so no bind is attempted and no listener is created.
\<close>

theorem start_server_port_in_use:
  "connect_ex ev (probe_host cfg) (server_port cfg) = Errno 0 \<Longrightarrow>
   start_server ev cfg w
     = (None,
        logger ERROR (''Port '' @ show_int (server_port cfg) @ '' is already in use.'')
          (emit (Probe (probe_host cfg) (server_port cfg)) w))
   \<and> trace (snd (start_server ev cfg w))
       = trace w @ [Probe (probe_host cfg) (server_port cfg)]
   \<and> binds (trace (snd (start_server ev cfg w))) = binds (trace w)"
  by (simp add: start_server_def Let_def trace_logger emit_def binds_def)

theorem start_server_port_in_use_witness:
  "connect_ex busy_env (probe_host sample_config) (server_port sample_config) = Errno 0
   \<and> fst (start_server busy_env sample_config sample_world) = None
   \<and> trace (snd (start_server busy_env sample_config sample_world)) = [Probe ''127.0.0.1'' 8080]
   \<and> binds (trace (snd (start_server busy_env sample_config sample_world))) = 0"
proof -
  have h: "connect_ex busy_env (probe_host sample_config) (server_port sample_config) = Errno 0"
    by (simp add: busy_env_def)
  from start_server_port_in_use [OF h, of sample_world] h show ?thesis
    by (simp add: sample_world_def sample_config_def probe_host_def binds_def logger_def
          emit_def)
qed

subsection \<open>Response headers\<close>

lemma foldl_send_header:
  "foldl (\<lambda>b (header, val). send_header header val b) buf items = buf @ items"
  by (induction items arbitrary: buf) (auto simp: send_header_def)

text \<open>
  C9, as the code has it. The header block of a response is the lines buffered by the
  base class followed by the configured lines, in the order of the configuration, each
  with its configured value; no buffered line is dropped or changed, so on a collision
  of names both lines are sent, the default first. Without a \<open>security\<close> key, or without
  \<open>headers\<close> under it, or without a configuration, the block is the buffered lines.
\<close>

theorem end_headers_appends_configured:
  "end_headers (Some (cfg\<lparr>security := Some (Some items)\<rparr>)) buf = buf @ items
   \<and> end_headers (Some (cfg\<lparr>security := Some None\<rparr>)) buf = buf
   \<and> end_headers (Some (cfg\<lparr>security := None\<rparr>)) buf = buf
   \<and> end_headers None buf = buf"
  by (simp add: end_headers_def foldl_send_header)

text \<open>
  C9 as stated fails: with the default line \<open>Content-type: text/html\<close> buffered and
  \<open>Content-type: text/plain\<close> configured, the response carries both lines, and the first
  line of that name still holds the default value.
\<close>

theorem end_headers_keeps_default_on_collision:
  "filter (\<lambda>(k, v). k = ''Content-type'')
     (end_headers (Some sample_config) [(''Content-type'', ''text/html'')])
   = [(''Content-type'', ''text/html''), (''Content-type'', ''text/plain'')]
   \<and> map_of (end_headers (Some sample_config) [(''Content-type'', ''text/html'')]) ''Content-type''
       = Some ''text/html''"
  by (simp add: end_headers_def foldl_send_header sample_config_def)

subsection \<open>The controller when the server does not start\<close>

lemma main_start_server_None:
  assumes "setup_environment cfg
             (check_dependencies (logger INFO ''Starting deployment process...'' w))
           = (Inr (), w2)"
    and "backup_current_version ev cfg w2 = (Inr backup_path, w3)"
    and "deploy_files cfg w3 = (Inr r, w4)"
    and "start_server ev cfg w4 = (None, w5)"
  shows "main ev cfg w = (Exit 1, logger ERROR ''Server failed to start.'' w5)"
  using assms by (simp add: main_def Let_def)

text \<open>
  C1, as the code has it. When set-up, backup and publishing have gone through and
  \<open>start_server\<close> returns no handle, \<open>main\<close> logs the failure and exits with code 1
  without calling \<open>rollback\<close>: the file tree is the one publishing left, whether or not a
  snapshot was captured.
\<close>

theorem main_server_failure_exits:
  assumes "setup_environment cfg
             (check_dependencies (logger INFO ''Starting deployment process...'' w))
           = (Inr (), w2)"
    and "backup_current_version ev cfg w2 = (Inr backup_path, w3)"
    and "deploy_files cfg w3 = (Inr r, w4)"
    and "start_server ev cfg w4 = (None, w5)"
  shows "main ev cfg w = (Exit 1, logger ERROR ''Server failed to start.'' w5)
         \<and> fs (snd (main ev cfg w)) = fs w4"
proof -
  have m: "main ev cfg w = (Exit 1, logger ERROR ''Server failed to start.'' w5)"
    using assms by (rule main_start_server_None)
  have "fs w5 = fs w4" using fs_start_server [of ev cfg w4] assms(4) by simp
  with m show ?thesis by (simp add: fs_logger)
qed

theorem main_server_failure_exits_witness:
  "fst (main busy_env sample_config sample_world) = Exit 1
   \<and> fs (snd (main busy_env sample_config sample_world)) = fs after_deploy"
  using main_server_failure_exits [OF run_setup run_backup run_deploy run_server]
  by (simp add: fs_logger fs_emit)

text \<open>
  C1 as stated fails: in the sample run a snapshot is captured, publishing replaces
  \<open>index.html\<close>, the port is taken, and the process exits with code 1 while the content
  root still holds the new file and the snapshot the old one; no rollback was started.
\<close>

theorem main_server_failure_not_restored:
  "fst (main busy_env sample_config sample_world) = Exit 1
   \<and> lookup (fs (snd (main busy_env sample_config sample_world)))
        [''deploy_backups'', ''backup_20240101_120000'']
       = Some (Dir [(''index.html'', File ''old'')])
   \<and> lookup (fs (snd (main busy_env sample_config sample_world))) [''www'']
       = Some (Dir [(''index.html'', File ''new'')])
   \<and> (WARNING, ''Initiating ROLLBACK...'')
       \<notin> set (log (snd (main busy_env sample_config sample_world)))"
proof -
  have "main busy_env sample_config sample_world
          = (Exit 1,
             logger ERROR ''Server failed to start.''
               (logger ERROR ''Port 8080 is already in use.''
                  (emit (Probe ''127.0.0.1'' 8080) after_deploy)))"
    by (rule main_start_server_None [OF run_setup run_backup run_deploy run_server])
  then show ?thesis by (simp add: logger_def emit_def after_deploy_def)
qed

subsection \<open>Rollback\<close>

text \<open>
  C2, as the code has it. When the content root has been removed and the copy from the
  snapshot raises, \<open>rollback\<close> catches the exception, logs it at level \<open>CRITICAL\<close> and
  returns normally; its caller then exits with code 1 as after a rollback that went
  through.
\<close>

theorem rollback_copy_failure_logged:
  assumes "exists [server_root_dir cfg] (logger WARNING ''Initiating ROLLBACK...'' w)"
    and "rmtree [server_root_dir cfg] (logger WARNING ''Initiating ROLLBACK...'' w) = (Inr (), w2)"
    and "copytree p [server_root_dir cfg] w2 = (Inl e, w3)"
  shows "rollback (Some p) cfg w
           = (Inr (), logger CRITICAL (''Rollback failed: '' @ exc_str e) w3)
         \<and> rollback_if (Some p) cfg w
           = (Exit 1, logger CRITICAL (''Rollback failed: '' @ exc_str e) w3)"
  using assms by (simp add: rollback_def rollback_if_def rollback_try_def Let_def)

lemma rb_exists: "exists [server_root_dir sample_config] (logger WARNING ''Initiating ROLLBACK...'' rollback_world)"
  by (simp add: exists_def logger_def rollback_world_def sample_config_def)

lemma rb_rmtree:
  "rmtree [server_root_dir sample_config] (logger WARNING ''Initiating ROLLBACK...'' rollback_world)
   = (Inr (),
      \<lparr>fs = Dir [(''deploy_backups'', Dir [(''b'', Dir [(''index.html'', File ''old'')])])],
       log = [(WARNING, ''Initiating ROLLBACK...'')],
       faults = [IoFail ''disk full'' None], trace = []\<rparr>)"
  by (simp add: rmtree_def logger_def rollback_world_def sample_config_def io_def set_at_def)

lemma rb_copytree:
  "copytree [''deploy_backups'', ''b''] [server_root_dir sample_config]
      \<lparr>fs = Dir [(''deploy_backups'', Dir [(''b'', Dir [(''index.html'', File ''old'')])])],
       log = [(WARNING, ''Initiating ROLLBACK...'')],
       faults = [IoFail ''disk full'' None], trace = []\<rparr>
   = (Inl (OSError ''disk full''),
      \<lparr>fs = Dir [(''deploy_backups'', Dir [(''b'', Dir [(''index.html'', File ''old'')])])],
       log = [(WARNING, ''Initiating ROLLBACK...'')],
       faults = [], trace = []\<rparr>)"
  by (simp add: copytree_def sample_config_def io_def set_at_def)

theorem rollback_copy_failure_logged_witness:
  "rollback (Some [''deploy_backups'', ''b'']) sample_config rollback_world
     = (Inr (),
        \<lparr>fs = Dir [(''deploy_backups'', Dir [(''b'', Dir [(''index.html'', File ''old'')])])],
         log = [(WARNING, ''Initiating ROLLBACK...''),
                (CRITICAL, ''Rollback failed: disk full'')],
         faults = [], trace = []\<rparr>)
   \<and> fst (rollback_if (Some [''deploy_backups'', ''b'']) sample_config rollback_world) = Exit 1"
  using rollback_copy_failure_logged [OF rb_exists rb_rmtree rb_copytree]
  by (simp add: logger_def exc_str_def)

text \<open>
  C2 as stated fails: in \<open>rollback_world\<close> the removal goes through and the copy raises;
  \<open>rollback\<close> returns normally, no exception leaves it, the content root is gone, and the
  caller goes on to exit with code 1.
\<close>

theorem rollback_swallows_copy_failure:
  "fst (rollback (Some [''deploy_backups'', ''b'']) sample_config rollback_world) = Inr ()
   \<and> lookup (fs (snd (rollback (Some [''deploy_backups'', ''b'']) sample_config rollback_world)))
        [''www''] = None
   \<and> fst (rollback_if (Some [''deploy_backups'', ''b'']) sample_config rollback_world) = Exit 1"
  by (simp add: rollback_def rollback_if_def rollback_try_def Let_def exists_def rmtree_def
        copytree_def logger_def rollback_world_def sample_config_def io_def set_at_def)

lemma rollback_never_raises: "fst (rollback bp cfg w) = Inr ()"
  by (simp add: rollback_def Let_def split: option.splits prod.splits sum.splits)


subsection \<open>Capture and restore\<close>


lemma io_fault_free:
  "fault_free w \<Longrightarrow>
   io t r w = (Inr (), w\<lparr>fs := set_at (fs w) t r, faults := tl (faults w)\<rparr>)"
  by (cases "faults w") (auto simp: io_def fault_free_def split: fault.splits)



lemma io_Inr_fs: "io t r w = (Inr u, w') \<Longrightarrow> fs w' = set_at (fs w) t r"
  by (auto simp: io_def split: list.splits fault.splits)

lemma lookup_Some_Dir: "lookup t (x # p) = Some n \<Longrightarrow> \<exists>xs. t = Dir xs"
  by (cases t) auto

lemma copytree_Inr:
  "copytree src dst w = (Inr u, w') \<Longrightarrow>
   \<exists>es. lookup (fs w) src = Some (Dir es) \<and> lookup (fs w) dst = None
        \<and> lookup (fs w') dst = Some (Dir es)
        \<and> (\<forall>q. diverge dst q \<longrightarrow> lookup (fs w') q = lookup (fs w) q)"
  by (auto simp: copytree_def set_at_def lookup_put_same lookup_put_diverge
           dest!: io_Inr_fs split: option.splits node.splits)

lemma copytree_fault_free:
  "fault_free w \<Longrightarrow> lookup (fs w) src = Some (Dir es) \<Longrightarrow> lookup (fs w) dst = None \<Longrightarrow>
   put (fs w) dst (Dir es) = Some t \<Longrightarrow>
   copytree src dst w = (Inr (), w\<lparr>fs := t, faults := tl (faults w)\<rparr>)"
  by (simp add: copytree_def io_fault_free set_at_def)




lemma backup_None:
  "lookup (fs w) [server_root_dir cfg] = None \<or> lookup (fs w) [server_root_dir cfg] = Some (Dir [])
   \<Longrightarrow> backup_current_version ev cfg w = (Inr None, w)"
  by (auto simp: backup_current_version_def exists_def listdir_def Let_def)

lemma backup_Some:
  assumes "backup_current_version ev cfg w = (Inr (Some p), w')"
  shows "\<exists>es. es \<noteq> [] \<and> lookup (fs w) [server_root_dir cfg] = Some (Dir es)
              \<and> p = [BACKUP_DIR, ''backup_'' @ now ev]
              \<and> lookup (fs w) p = None \<and> lookup (fs w') p = Some (Dir es)"
proof -
  let ?p = "[BACKUP_DIR, ''backup_'' @ now ev]"
  from assms obtain es u w1 where
    es: "lookup (fs w) [server_root_dir cfg] = Some (Dir es)" "es \<noteq> []"
    and cp: "copytree [server_root_dir cfg] ?p w = (Inr u, w1)"
    and p: "p = ?p"
    and w': "w' = logger INFO (''Backup created at: '' @ path_str ?p) w1"
    by (auto simp: backup_current_version_def exists_def listdir_def Let_def
             split: if_splits option.splits node.splits prod.splits sum.splits)
  from copytree_Inr [OF cp] es(1)
  have "lookup (fs w) ?p = None" "lookup (fs w1) ?p = Some (Dir es)" by auto
  with es p w' show ?thesis by (simp add: fs_logger)
qed

lemma backup_not_None:
  "lookup (fs w) [server_root_dir cfg] = Some (Dir es) \<Longrightarrow> es \<noteq> [] \<Longrightarrow>
   fst (backup_current_version ev cfg w) \<noteq> Inr None"
  by (auto simp: backup_current_version_def exists_def listdir_def Let_def
           split: prod.splits sum.splits)

lemma put_backup_path:
  assumes "lookup t [r] = Some n" and "\<forall>c. lookup t [b] \<noteq> Some (File c)"
  shows "\<exists>t'. put t [b, x] new = Some t'"
proof -
  from assms(1) obtain xs where t: "t = Dir xs" by (auto dest: lookup_Some_Dir)
  show ?thesis
  proof (cases "map_of xs b")
    case None
    then show ?thesis by (simp add: t)
  next
    case (Some m)
    with assms(2) t obtain ys where "m = Dir ys" by (cases m) auto
    with Some show ?thesis by (simp add: t)
  qed
qed

lemma backup_fault_free:
  assumes root: "lookup (fs w) [server_root_dir cfg] = Some (Dir es)" "es \<noteq> []"
    and ff: "fault_free w"
    and fresh: "lookup (fs w) [BACKUP_DIR, ''backup_'' @ now ev] = None"
    and nofile: "\<forall>c. lookup (fs w) [BACKUP_DIR] \<noteq> Some (File c)"
  shows "\<exists>t. put (fs w) [BACKUP_DIR, ''backup_'' @ now ev] (Dir es) = Some t
            \<and> backup_current_version ev cfg w
              = (Inr (Some [BACKUP_DIR, ''backup_'' @ now ev]),
                 logger INFO
                   (''Backup created at: '' @ path_str [BACKUP_DIR, ''backup_'' @ now ev])
                   (w\<lparr>fs := t, faults := tl (faults w)\<rparr>))"
proof -
  let ?p = "[BACKUP_DIR, ''backup_'' @ now ev]"
  from put_backup_path [OF root(1) nofile] obtain t where t: "put (fs w) ?p (Dir es) = Some t"
    by blast
  have "copytree [server_root_dir cfg] ?p w = (Inr (), w\<lparr>fs := t, faults := tl (faults w)\<rparr>)"
    by (rule copytree_fault_free [OF ff root(1) fresh t])
  with root t show ?thesis
    by (simp add: backup_current_version_def exists_def listdir_def Let_def)
qed

text \<open>
  C7. \<open>backup_current_version\<close> returns no snapshot, and changes nothing, when the content
  root is absent or an empty directory. When it returns a path, the content root was a
  non-empty directory, the path is \<open>deploy_backups/backup_<timestamp>\<close>, it did not exist
  before, and it now holds a copy of the content root. A non-empty content root never
  gives the answer "no snapshot"; it gives the path whenever the copy is not made to
  fail, the path is fresh and the backups directory is not a file. \<open>rollback\<close> without a
  snapshot only logs a warning and leaves the file tree as it is.
\<close>

theorem backup_current_version_snapshot_iff:
  "((lookup (fs w) [server_root_dir cfg] = None
      \<or> lookup (fs w) [server_root_dir cfg] = Some (Dir []))
     \<longrightarrow> backup_current_version ev cfg w = (Inr None, w))
   \<and> (backup_current_version ev cfg w = (Inr (Some p), w')
       \<longrightarrow> (\<exists>ds. ds \<noteq> [] \<and> lookup (fs w) [server_root_dir cfg] = Some (Dir ds)
                 \<and> p = [BACKUP_DIR, ''backup_'' @ now ev]
                 \<and> lookup (fs w) p = None \<and> lookup (fs w') p = Some (Dir ds)))
   \<and> (lookup (fs w) [server_root_dir cfg] = Some (Dir es) \<and> es \<noteq> []
       \<longrightarrow> fst (backup_current_version ev cfg w) \<noteq> Inr None)
   \<and> (lookup (fs w) [server_root_dir cfg] = Some (Dir es) \<and> es \<noteq> [] \<and> fault_free w
        \<and> lookup (fs w) [BACKUP_DIR, ''backup_'' @ now ev] = None
        \<and> (\<forall>c. lookup (fs w) [BACKUP_DIR] \<noteq> Some (File c))
       \<longrightarrow> fst (backup_current_version ev cfg w) = Inr (Some [BACKUP_DIR, ''backup_'' @ now ev]))
   \<and> rollback None cfg w = (Inr (), logger WARNING ''No backup path provided for rollback.'' w)
   \<and> fs (snd (rollback None cfg w)) = fs w"
proof -
  have a: "(lookup (fs w) [server_root_dir cfg] = None
             \<or> lookup (fs w) [server_root_dir cfg] = Some (Dir []))
           \<longrightarrow> backup_current_version ev cfg w = (Inr None, w)"
    using backup_None by blast
  have b: "backup_current_version ev cfg w = (Inr (Some p), w')
       \<longrightarrow> (\<exists>ds. ds \<noteq> [] \<and> lookup (fs w) [server_root_dir cfg] = Some (Dir ds)
                 \<and> p = [BACKUP_DIR, ''backup_'' @ now ev]
                 \<and> lookup (fs w) p = None \<and> lookup (fs w') p = Some (Dir ds))"
    using backup_Some by blast
  have c: "lookup (fs w) [server_root_dir cfg] = Some (Dir es) \<and> es \<noteq> []
       \<longrightarrow> fst (backup_current_version ev cfg w) \<noteq> Inr None"
    using backup_not_None by blast
  have d: "lookup (fs w) [server_root_dir cfg] = Some (Dir es) \<and> es \<noteq> [] \<and> fault_free w
        \<and> lookup (fs w) [BACKUP_DIR, ''backup_'' @ now ev] = None
        \<and> (\<forall>c. lookup (fs w) [BACKUP_DIR] \<noteq> Some (File c))
       \<longrightarrow> fst (backup_current_version ev cfg w) = Inr (Some [BACKUP_DIR, ''backup_'' @ now ev])"
  proof
    assume h: "lookup (fs w) [server_root_dir cfg] = Some (Dir es) \<and> es \<noteq> [] \<and> fault_free w
        \<and> lookup (fs w) [BACKUP_DIR, ''backup_'' @ now ev] = None
        \<and> (\<forall>c. lookup (fs w) [BACKUP_DIR] \<noteq> Some (File c))"
    then obtain t where "backup_current_version ev cfg w
              = (Inr (Some [BACKUP_DIR, ''backup_'' @ now ev]),
                 logger INFO
                   (''Backup created at: '' @ path_str [BACKUP_DIR, ''backup_'' @ now ev])
                   (w\<lparr>fs := t, faults := tl (faults w)\<rparr>))"
      using backup_fault_free [of w cfg es ev] by blast
    then show "fst (backup_current_version ev cfg w) = Inr (Some [BACKUP_DIR, ''backup_'' @ now ev])"
      by simp
  qed
  have e: "rollback None cfg w = (Inr (), logger WARNING ''No backup path provided for rollback.'' w)"
    by (simp add: rollback_def)
  then have f: "fs (snd (rollback None cfg w)) = fs w" by (simp add: fs_logger)
  from a b c d e f show ?thesis by blast
qed

theorem backup_current_version_snapshot_iff_witness:
  "backup_current_version busy_env sample_config empty_root_world = (Inr None, empty_root_world)
   \<and> lookup (fs after_backup) [''deploy_backups'', ''backup_20240101_120000'']
       = Some (Dir [(''index.html'', File ''old'')])
   \<and> fst (backup_current_version busy_env sample_config after_setup)
       = Inr (Some [''deploy_backups'', ''backup_20240101_120000''])"
proof -
  have h1: "lookup (fs empty_root_world) [server_root_dir sample_config] = None
            \<or> lookup (fs empty_root_world) [server_root_dir sample_config] = Some (Dir [])"
    by (simp add: empty_root_world_def sample_config_def)
  have a: "backup_current_version busy_env sample_config empty_root_world
             = (Inr None, empty_root_world)"
    using backup_current_version_snapshot_iff
            [of empty_root_world sample_config busy_env, THEN conjunct1] h1 by blast
  note t = backup_current_version_snapshot_iff
             [of after_setup sample_config busy_env
                 "[''deploy_backups'', ''backup_20240101_120000'']" after_backup
                 "[(''index.html'', File ''old'')]"]
  from t run_backup obtain ds where
    ds: "lookup (fs after_setup) [server_root_dir sample_config] = Some (Dir ds)"
        "lookup (fs after_backup) [''deploy_backups'', ''backup_20240101_120000''] = Some (Dir ds)"
    by blast
  from ds(1) have "ds = [(''index.html'', File ''old'')]"
    by (simp add: after_setup_def sample_config_def)
  with ds(2) have b: "lookup (fs after_backup) [''deploy_backups'', ''backup_20240101_120000'']
                        = Some (Dir [(''index.html'', File ''old'')])" by simp
  have h4: "lookup (fs after_setup) [server_root_dir sample_config]
              = Some (Dir [(''index.html'', File ''old'')])
            \<and> [(''index.html'', File ''old'')] \<noteq> [] \<and> fault_free after_setup
            \<and> lookup (fs after_setup) [BACKUP_DIR, ''backup_'' @ now busy_env] = None
            \<and> (\<forall>c. lookup (fs after_setup) [BACKUP_DIR] \<noteq> Some (File c))"
    by (simp add: after_setup_def sample_config_def fault_free_def BACKUP_DIR_def)
  from t h4 have "fst (backup_current_version busy_env sample_config after_setup)
                    = Inr (Some [BACKUP_DIR, ''backup_'' @ now busy_env])" by blast
  then have c: "fst (backup_current_version busy_env sample_config after_setup)
                  = Inr (Some [''deploy_backups'', ''backup_20240101_120000''])"
    by (simp add: BACKUP_DIR_def busy_env_def sample_env_def)
  from a b c show ?thesis by blast
qed







subsection \<open>Publishing\<close>

lemma deploy_loop_count:
  "deploy_loop cfg items c w = (Inr c', w') \<Longrightarrow>
   c' = c + length (filter (\<lambda>i. \<not> skipped cfg i) items)"
proof (induction items arbitrary: c w)
  case Nil
  then show ?case by simp
next
  case (Cons item items)
  show ?case
  proof (cases "skipped cfg item")
    case True
    with Cons.prems Cons.IH [of c w] show ?thesis by simp
  next
    case False
    with Cons.prems obtain u w1 where "deploy_item cfg item w = (Inr u, w1)"
      and "deploy_loop cfg items (c + 1) w1 = (Inr c', w')"
      by (auto split: prod.splits sum.splits)
    with Cons.IH [of "c + 1" w1] False show ?thesis by simp
  qed
qed

lemma deploy_loop_append:
  "deploy_loop cfg (xs @ ys) c w =
     (case deploy_loop cfg xs c w of
        (Inl e, w') \<Rightarrow> (Inl e, w')
      | (Inr c', w') \<Rightarrow> deploy_loop cfg ys c' w')"
  by (induction xs arbitrary: c w) (auto split: prod.splits sum.splits)

lemma listdir_logger: "listdir p (logger l m w) = listdir p w"
  by (simp add: listdir_def fs_logger)

text \<open>
  C6, as the code has it. When \<open>deploy_files\<close> completes it returns \<open>None\<close>; the number
  of entries copied, which is the number of entries of the working directory that are
  not skipped, appears only in its last log line. When the copy of an entry raises, the
  loop stops there: the entries after it are not touched, and the exception of the
  library call leaves \<open>deploy_files\<close> as it is, with no count attached and no log line.
\<close>

theorem deploy_files_returns_None:
  "(deploy_files cfg w = (Inr v, w') \<longrightarrow>
      v = None
      \<and> (\<exists>items. listdir [] w = Inr items
            \<and> last (log w')
                = (INFO, ''Deployed '' @ show_nat (length (filter (\<lambda>i. \<not> skipped cfg i) items))
                           @ '' items to '' @ server_root_dir cfg)))
   \<and> (listdir [] w = Inr (xs @ y # ys)
        \<and> deploy_loop cfg xs 0 (logger INFO ''Deploying files...'' w) = (Inr c, w1)
        \<and> \<not> skipped cfg y \<and> deploy_item cfg y w1 = (Inl e, w2)
       \<longrightarrow> deploy_files cfg w = (Inl e, w2))"
proof -
  have a: "v = None
      \<and> (\<exists>items. listdir [] w = Inr items
            \<and> last (log w')
                = (INFO, ''Deployed '' @ show_nat (length (filter (\<lambda>i. \<not> skipped cfg i) items))
                           @ '' items to '' @ server_root_dir cfg))"
    if h: "deploy_files cfg w = (Inr v, w')"
  proof -
    from h obtain items c w2 where
      l: "listdir [] w = Inr items"
      and d: "deploy_loop cfg items 0 (logger INFO ''Deploying files...'' w) = (Inr c, w2)"
      and v: "v = None"
      and w': "w' = logger INFO (''Deployed '' @ show_nat c @ '' items to '' @ server_root_dir cfg) w2"
      by (auto simp: deploy_files_def Let_def listdir_logger split: sum.splits prod.splits)
    from deploy_loop_count [OF d] have "c = length (filter (\<lambda>i. \<not> skipped cfg i) items)"
      by simp
    with l v w' show ?thesis by (simp add: logger_def)
  qed
  have b: "deploy_files cfg w = (Inl e, w2)"
    if h: "listdir [] w = Inr (xs @ y # ys)
        \<and> deploy_loop cfg xs 0 (logger INFO ''Deploying files...'' w) = (Inr c, w1)
        \<and> \<not> skipped cfg y \<and> deploy_item cfg y w1 = (Inl e, w2)"
  proof -
    from h have "deploy_loop cfg (xs @ y # ys) 0 (logger INFO ''Deploying files...'' w)
                   = (Inl e, w2)"
      by (simp add: deploy_loop_append)
    with h show ?thesis by (simp add: deploy_files_def Let_def listdir_logger)
  qed
  from a b show ?thesis by blast
qed

lemma fail_loop:
  "deploy_loop sample_config [''a''] 0 (logger INFO ''Deploying files...'' publish_fail_world)
   = (Inr 1,
      \<lparr>fs = Dir [(''a'', File ''new''), (''b'', File ''new''),
                 (''www'', Dir [(''a'', File ''new'')])],
       log = [(INFO, ''Deploying files...'')],
       faults = [IoFail ''disk full'' None], trace = []\<rparr>)"
  by (simp add: publish_fail_world_def sample_config_def logger_def skipped_def excludes_def
        startswith_dot_def BACKUP_DIR_def deploy_item_def isdir_def exists_def copy2_def io_def
        set_at_def)

lemma fail_item:
  "deploy_item sample_config ''b''
      \<lparr>fs = Dir [(''a'', File ''new''), (''b'', File ''new''),
                 (''www'', Dir [(''a'', File ''new'')])],
       log = [(INFO, ''Deploying files...'')],
       faults = [IoFail ''disk full'' None], trace = []\<rparr>
   = (Inl (OSError ''disk full''),
      \<lparr>fs = Dir [(''a'', File ''new''), (''b'', File ''new''),
                 (''www'', Dir [(''a'', File ''new'')])],
       log = [(INFO, ''Deploying files...'')],
       faults = [], trace = []\<rparr>)"
  by (simp add: sample_config_def deploy_item_def isdir_def exists_def copy2_def io_def
        set_at_def)

theorem deploy_files_returns_None_witness:
  "last (log after_deploy) = (INFO, ''Deployed 1 items to www'')
   \<and> deploy_files sample_config publish_fail_world
       = (Inl (OSError ''disk full''),
          \<lparr>fs = Dir [(''a'', File ''new''), (''b'', File ''new''),
                     (''www'', Dir [(''a'', File ''new'')])],
           log = [(INFO, ''Deploying files...'')],
           faults = [], trace = []\<rparr>)"
proof -
  from deploy_files_returns_None
         [of sample_config after_backup None after_deploy, THEN conjunct1] run_deploy
  obtain items where
    i: "listdir [] after_backup = Inr items"
       "last (log after_deploy)
          = (INFO, ''Deployed '' @ show_nat (length (filter (\<lambda>i. \<not> skipped sample_config i) items))
                     @ '' items to '' @ server_root_dir sample_config)"
    by blast
  from i(1) have "items = [''index.html'', ''www'', ''deploy_backups'']"
    by (auto simp: listdir_def after_backup_def)
  with i(2) have a: "last (log after_deploy) = (INFO, ''Deployed 1 items to www'')"
    by (simp add: skipped_def excludes_def startswith_dot_def BACKUP_DIR_def sample_config_def
          show_nat.simps)
  have l: "listdir [] publish_fail_world = Inr ([''a''] @ ''b'' # [''www''])"
    by (simp add: listdir_def publish_fail_world_def)
  have s: "\<not> skipped sample_config ''b''"
    by (simp add: skipped_def excludes_def startswith_dot_def BACKUP_DIR_def sample_config_def)
  from deploy_files_returns_None [THEN conjunct2, THEN mp, OF conjI [OF l conjI [OF fail_loop conjI [OF s fail_item]]]]
    a
  show ?thesis by simp
qed

text \<open>
  C6 as stated fails: the sample publishing copies one entry and returns \<open>None\<close>, not 1;
  in \<open>publish_fail_world\<close> one entry is copied before the second copy fails, and what
  leaves \<open>deploy_files\<close> is the bare \<open>OSError\<close>.
\<close>

theorem deploy_files_no_count:
  "fst (deploy_files sample_config after_backup) = Inr None
   \<and> last (log (snd (deploy_files sample_config after_backup)))
       = (INFO, ''Deployed 1 items to www'')
   \<and> fst (deploy_files sample_config publish_fail_world) = Inl (OSError ''disk full'')
   \<and> lookup (fs (snd (deploy_files sample_config publish_fail_world))) [''www'', ''a'']
       = Some (File ''new'')"
proof -
  have "deploy_files sample_config publish_fail_world
       = (Inl (OSError ''disk full''),
          \<lparr>fs = Dir [(''a'', File ''new''), (''b'', File ''new''),
                     (''www'', Dir [(''a'', File ''new'')])],
           log = [(INFO, ''Deploying files...'')],
           faults = [], trace = []\<rparr>)"
    by (simp add: deploy_files_def listdir_def publish_fail_world_def sample_config_def
        logger_def skipped_def excludes_def startswith_dot_def BACKUP_DIR_def deploy_item_def
        isdir_def exists_def copy2_def io_def set_at_def)
  then show ?thesis by (simp add: run_deploy after_deploy_def)
qed


subsection \<open>What publishing writes\<close>

lemma io_fs_diverge: "diverge t q \<Longrightarrow> lookup (fs (snd (io t r w))) q = lookup (fs w) q"
  by (auto simp: io_def lookup_set_at_diverge split: list.splits fault.splits)

lemma rmtree_fs_diverge:
  "diverge t q \<Longrightarrow> lookup (fs (snd (rmtree t w))) q = lookup (fs w) q"
  by (auto simp: rmtree_def io_fs_diverge split: option.splits node.splits)

lemma copytree_fs_diverge:
  "diverge t q \<Longrightarrow> lookup (fs (snd (copytree src t w))) q = lookup (fs w) q"
  by (auto simp: copytree_def io_fs_diverge split: option.splits node.splits)

lemma copy2_fs_diverge:
  "diverge t q \<Longrightarrow> lookup (fs (snd (copy2 src t w))) q = lookup (fs w) q"
  by (auto simp: copy2_def io_fs_diverge diverge_append split: option.splits node.splits)

lemma deploy_item_fs_diverge:
  assumes "diverge [server_root_dir cfg, item] q"
  shows "lookup (fs (snd (deploy_item cfg item w))) q = lookup (fs w) q"
proof (cases "isdir [item] w")
  case False
  then show ?thesis using assms by (simp add: deploy_item_def Let_def copy2_fs_diverge)
next
  case True
  let ?dst = "[server_root_dir cfg, item]"
  obtain r1 w1 where rm: "(if exists ?dst w then rmtree ?dst w else (Inr (), w)) = (r1, w1)"
    by (cases "if exists ?dst w then rmtree ?dst w else (Inr (), w)")
  have w1: "lookup (fs w1) q = lookup (fs w) q"
    using rm rmtree_fs_diverge [OF assms, of w] by (auto split: if_splits)
  show ?thesis
  proof (cases r1)
    case (Inl e)
    with True rm w1 show ?thesis by (simp add: deploy_item_def Let_def)
  next
    case (Inr u)
    with True rm have "deploy_item cfg item w = copytree [item] ?dst w1"
      by (simp add: deploy_item_def Let_def)
    with w1 copytree_fs_diverge [OF assms, of "[item]" w1] show ?thesis by simp
  qed
qed

lemma deploy_loop_fs_diverge:
  "(\<And>x. x \<in> set items \<Longrightarrow> \<not> skipped cfg x \<Longrightarrow> diverge [server_root_dir cfg, x] q) \<Longrightarrow>
   lookup (fs (snd (deploy_loop cfg items c w))) q = lookup (fs w) q"
proof (induction items arbitrary: c w)
  case Nil
  then show ?case by simp
next
  case (Cons item items)
  show ?case
  proof (cases "skipped cfg item")
    case True
    with Cons show ?thesis by simp
  next
    case False
    obtain r1 w1 where d: "deploy_item cfg item w = (r1, w1)" by (cases "deploy_item cfg item w")
    have w1: "lookup (fs w1) q = lookup (fs w) q"
      using deploy_item_fs_diverge [of cfg item q w] d Cons.prems False by simp
    show ?thesis
    proof (cases r1)
      case (Inl e)
      with False d w1 show ?thesis by simp
    next
      case (Inr u)
      with False d have "deploy_loop cfg (item # items) c w = deploy_loop cfg items (c + 1) w1"
        by simp
      with w1 Cons.IH [of "c + 1" w1] Cons.prems show ?thesis by simp
    qed
  qed
qed

lemma not_skipped_neq_root: "\<not> skipped cfg x \<Longrightarrow> x \<noteq> server_root_dir cfg"
  by (auto simp: skipped_def excludes_def)

lemma deploy_files_fs_diverge:
  assumes "\<And>x. \<not> skipped cfg x \<Longrightarrow> diverge [server_root_dir cfg, x] q"
  shows "lookup (fs (snd (deploy_files cfg w))) q = lookup (fs w) q"
proof (cases "listdir [] (logger INFO ''Deploying files...'' w)")
  case (Inl e)
  then show ?thesis by (simp add: deploy_files_def Let_def fs_logger)
next
  case (Inr items)
  let ?w1 = "logger INFO ''Deploying files...'' w"
  have "lookup (fs (snd (deploy_loop cfg items 0 ?w1))) q = lookup (fs w) q"
    using deploy_loop_fs_diverge [of items cfg q 0 ?w1] assms by (simp add: fs_logger)
  with Inr show ?thesis
    by (auto simp: deploy_files_def Let_def fs_logger split: prod.splits sum.splits)
qed

lemma put_child_ok:
  assumes "lookup t [r] = Some (Dir ds)"
  shows "put t [r, x] new = Some (Dir (AList.update r (Dir (AList.update x new ds))
                                         (case t of Dir xs \<Rightarrow> xs | File c \<Rightarrow> [])))"
proof -
  from assms obtain xs where t: "t = Dir xs" by (auto dest: lookup_Some_Dir)
  with assms have "map_of xs r = Some (Dir ds)" by (auto split: option.splits)
  then show ?thesis by (simp add: t)
qed

lemma lookup_parent_Dir:
  "lookup t [r, x] = Some n \<Longrightarrow> \<exists>ds. lookup t [r] = Some (Dir ds)"
  by (cases t) (auto split: option.splits dest: lookup_Some_Dir)

lemma set_at_child:
  assumes "lookup t [r] = Some (Dir ds)"
  shows "lookup (set_at t [r, x] (Some new)) [r, x] = Some new"
  using lookup_put_same [OF put_child_ok [OF assms, of x new]]
  by (simp add: set_at_def put_child_ok [OF assms])

lemma isdir_iff: "isdir p w \<longleftrightarrow> (\<exists>es. lookup (fs w) p = Some (Dir es))"
  by (auto simp: isdir_def split: option.splits node.splits)

lemma deploy_item_copies:
  assumes ok: "deploy_item cfg item w = (Inr u, w')"
    and ne: "item \<noteq> server_root_dir cfg"
    and src: "lookup (fs w) [item] \<noteq> None"
    and nc: "\<not> kind_conflict cfg item w"
  shows "lookup (fs w') [server_root_dir cfg, item] = lookup (fs w) [item]"
proof (cases "isdir [item] w")
  case True
  let ?dst = "[server_root_dir cfg, item]"
  from True obtain es where es: "lookup (fs w) [item] = Some (Dir es)" by (auto simp: isdir_iff)
  from ok True obtain u1 w1 where
    rm: "(if exists ?dst w then rmtree ?dst w else (Inr (), w)) = (Inr u1, w1)"
    and cp: "copytree [item] ?dst w1 = (Inr u, w')"
    by (auto simp: deploy_item_def Let_def split: prod.splits sum.splits)
  have dv: "diverge ?dst [item]" using ne by simp
  have "lookup (fs w1) [item] = lookup (fs w) [item]"
    using rm rmtree_fs_diverge [OF dv, of w] by (auto split: if_splits)
  with copytree_Inr [OF cp] es show ?thesis by auto
next
  case False
  let ?dst = "[server_root_dir cfg, item]"
  from src obtain n0 where n0: "lookup (fs w) [item] = Some n0" by auto
  with False obtain c where c: "lookup (fs w) [item] = Some (File c)"
    by (cases n0) (auto simp: isdir_iff)
  from ok False have cp: "copy2 [item] ?dst w = (Inr u, w')" by (simp add: deploy_item_def Let_def)
  from nc False have nd: "\<not> isdir ?dst w" by (simp add: kind_conflict_def)
  show ?thesis
  proof (cases "lookup (fs w) ?dst")
    case None
    with cp c obtain ds where p: "lookup (fs w) [server_root_dir cfg] = Some (Dir ds)"
      and i: "io ?dst (Some (File c)) w = (Inr u, w')"
      by (auto simp: copy2_def isdir_iff split: if_splits)
    from io_Inr_fs [OF i] set_at_child [OF p] c show ?thesis by simp
  next
    case (Some n)
    with nd obtain old where old: "lookup (fs w) ?dst = Some (File old)"
      by (cases n) (auto simp: isdir_iff)
    from lookup_parent_Dir [OF old] obtain ds where
      p: "lookup (fs w) [server_root_dir cfg] = Some (Dir ds)" by blast
    from cp c old have i: "io ?dst (Some (File c)) w = (Inr u, w')" by (simp add: copy2_def)
    from io_Inr_fs [OF i] set_at_child [OF p] c show ?thesis by simp
  qed
qed


lemma kind_conflict_cong:
  "lookup (fs w1) [x] = lookup (fs w) [x] \<Longrightarrow>
   lookup (fs w1) [server_root_dir cfg, x] = lookup (fs w) [server_root_dir cfg, x] \<Longrightarrow>
   kind_conflict cfg x w1 = kind_conflict cfg x w"
  by (simp add: kind_conflict_def isdir_def)

lemma no_kind_conflict_same:
  "lookup (fs w1) [server_root_dir cfg, x] = lookup (fs w1) [x] \<Longrightarrow> \<not> kind_conflict cfg x w1"
  by (simp add: kind_conflict_def isdir_def)

lemma deploy_loop_copies:
  assumes "deploy_loop cfg items c w = (Inr c', w')"
    and "x \<in> set items" and "\<not> skipped cfg x"
    and "lookup (fs w) [x] \<noteq> None" and "\<not> kind_conflict cfg x w"
  shows "lookup (fs w') [server_root_dir cfg, x] = lookup (fs w) [x]"
  using assms
proof (induction items arbitrary: c w)
  case Nil
  then show ?case by simp
next
  case (Cons item items)
  let ?r = "server_root_dir cfg"
  have xr: "x \<noteq> ?r" using Cons.prems(3) by (rule not_skipped_neq_root)
  show ?case
  proof (cases "skipped cfg item")
    case True
    with Cons.prems have "deploy_loop cfg items c w = (Inr c', w')" "x \<in> set items" by auto
    then show ?thesis using Cons.IH Cons.prems(3,4,5) by blast
  next
    case False
    with Cons.prems(1) obtain u w1 where
      d: "deploy_item cfg item w = (Inr u, w1)"
      and l: "deploy_loop cfg items (c + 1) w1 = (Inr c', w')"
      by (auto split: prod.splits sum.splits)
    have ir: "item \<noteq> ?r" using False by (rule not_skipped_neq_root)
    have keep: "lookup (fs w1) q = lookup (fs w) q" if "diverge [?r, item] q" for q
      using deploy_item_fs_diverge [OF that, of w] d by simp
    have src: "lookup (fs w1) [x] = lookup (fs w) [x]"
      using keep [of "[x]"] xr by simp
    show ?thesis
    proof (cases "x \<in> set items")
      case True
      have nc: "\<not> kind_conflict cfg x w1"
      proof (cases "x = item")
        case True
        have "lookup (fs w1) [?r, x] = lookup (fs w) [x]"
          using deploy_item_copies [OF d ir] Cons.prems(4,5) True by simp
        with src show ?thesis by (simp add: no_kind_conflict_same)
      next
        case False
        then have "lookup (fs w1) [?r, x] = lookup (fs w) [?r, x]"
          using keep [of "[?r, x]"] by auto
        from kind_conflict_cong [OF src this] Cons.prems(5) show ?thesis by simp
      qed
      from Cons.IH [OF l True Cons.prems(3) _ nc] src Cons.prems(4) show ?thesis by simp
    next
      case nin: False
      with Cons.prems(2) have xi: "x = item" by simp
      have "lookup (fs (snd (deploy_loop cfg items (c + 1) w1))) [?r, x]
              = lookup (fs w1) [?r, x]"
      proof (rule deploy_loop_fs_diverge)
        fix y assume "y \<in> set items"
        with nin have "y \<noteq> x" by auto
        then show "diverge [?r, y] [?r, x]" by simp
      qed
      with l have "lookup (fs w') [?r, x] = lookup (fs w1) [?r, x]" by simp
      also have "\<dots> = lookup (fs w) [x]"
        using deploy_item_copies [OF d ir] Cons.prems(4,5) xi by simp
      finally show ?thesis .
    qed
  qed
qed

lemma listdir_top_entry:
  "listdir [] w = Inr items \<Longrightarrow> lookup (fs w) [x] \<noteq> None \<Longrightarrow> x \<in> set items"
  by (cases "fs w")
     (force simp: listdir_def dest: map_of_SomeD split: option.splits)+

lemma run_conflict:
  "deploy_files sample_config conflict_world
   = (Inr None,
      \<lparr>fs = Dir [(''a'', File ''new''),
                 (''www'', Dir [(''a'', Dir [(''old'', File ''x''), (''a'', File ''new'')])])],
       log = [(INFO, ''Deploying files...''), (INFO, ''Deployed 1 items to www'')],
       faults = [], trace = []\<rparr>)"
  by (simp add: deploy_files_def listdir_def conflict_world_def sample_config_def
        logger_def skipped_def excludes_def startswith_dot_def BACKUP_DIR_def deploy_item_def
        isdir_def exists_def copy2_def io_def set_at_def show_nat.simps)

text \<open>
  What publishing does guarantee. Whatever the working directory holds and however
  publishing ends, the entry of the content root under a skipped name (one in the
  exclude list or starting with a dot) is what it was. When \<open>deploy_files\<close> completes,
  every other entry of the working directory is in the content root under its name,
  equal to the source: a directory replaces the old directory as a whole, a file
  overwrites the old file; the one case apart is a source file whose name is a
  directory in the content root.
\<close>

theorem deploy_files_skips_and_copies:
  "(skipped cfg s \<longrightarrow>
      lookup (fs (snd (deploy_files cfg w))) [server_root_dir cfg, s]
        = lookup (fs w) [server_root_dir cfg, s])
   \<and> (deploy_files cfg w = (Inr v, w') \<and> lookup (fs w) [item] \<noteq> None
        \<and> \<not> skipped cfg item \<and> \<not> kind_conflict cfg item w
       \<longrightarrow> lookup (fs w') [server_root_dir cfg, item] = lookup (fs w) [item])"
proof -
  have a: "lookup (fs (snd (deploy_files cfg w))) [server_root_dir cfg, s]
             = lookup (fs w) [server_root_dir cfg, s]" if s: "skipped cfg s"
  proof (rule deploy_files_fs_diverge)
    fix x assume "\<not> skipped cfg x"
    with s have "x \<noteq> s" by auto
    then show "diverge [server_root_dir cfg, x] [server_root_dir cfg, s]" by simp
  qed
  have b: "lookup (fs w') [server_root_dir cfg, item] = lookup (fs w) [item]"
    if h: "deploy_files cfg w = (Inr v, w') \<and> lookup (fs w) [item] \<noteq> None
           \<and> \<not> skipped cfg item \<and> \<not> kind_conflict cfg item w"
  proof -
    let ?w1 = "logger INFO ''Deploying files...'' w"
    from h obtain items c w2 where
      l: "listdir [] w = Inr items"
      and d: "deploy_loop cfg items 0 ?w1 = (Inr c, w2)"
      and w': "w' = logger INFO (''Deployed '' @ show_nat c @ '' items to '' @ server_root_dir cfg) w2"
      by (auto simp: deploy_files_def Let_def listdir_logger split: sum.splits prod.splits)
    from listdir_top_entry [OF l] h have x: "item \<in> set items" by simp
    have nc: "\<not> kind_conflict cfg item ?w1"
      using h by (simp add: kind_conflict_def isdir_def fs_logger)
    from deploy_loop_copies [OF d x _ _ nc] h w' show ?thesis by (simp add: fs_logger)
  qed
  from a b show ?thesis by blast
qed

theorem deploy_files_skips_and_copies_witness:
  "lookup (fs after_deploy) [''www'', ''index.html''] = Some (File ''new'')
   \<and> lookup (fs (snd (deploy_files sample_config after_backup))) [''www'', ''deploy_backups'']
       = None"
proof -
  note t = deploy_files_skips_and_copies
             [of sample_config "''deploy_backups''" after_backup None after_deploy
                 "''index.html''"]
  have s: "skipped sample_config ''deploy_backups''"
    by (simp add: skipped_def excludes_def BACKUP_DIR_def)
  have h0: "lookup (fs after_backup) [''index.html''] \<noteq> None
           \<and> \<not> skipped sample_config ''index.html''
           \<and> \<not> kind_conflict sample_config ''index.html'' after_backup"
    by (simp add: after_backup_def skipped_def excludes_def BACKUP_DIR_def
          startswith_dot_def sample_config_def kind_conflict_def isdir_def)
  have h: "deploy_files sample_config after_backup = (Inr None, after_deploy)
           \<and> lookup (fs after_backup) [''index.html''] \<noteq> None
           \<and> \<not> skipped sample_config ''index.html''
           \<and> \<not> kind_conflict sample_config ''index.html'' after_backup"
    using run_deploy h0 by (rule conjI)
  from t s have "lookup (fs (snd (deploy_files sample_config after_backup)))
                   [server_root_dir sample_config, ''deploy_backups'']
                 = lookup (fs after_backup) [server_root_dir sample_config, ''deploy_backups'']"
    by blast
  moreover from t h have "lookup (fs after_deploy) [server_root_dir sample_config, ''index.html'']
                 = lookup (fs after_backup) [''index.html'']"
    by blast
  ultimately show ?thesis by (simp add: sample_config_def after_backup_def)
qed

text \<open>
  C5. The file branch of \<open>deploy_files\<close> does not remove an existing destination as the
  directory branch does. In \<open>conflict_world\<close> the source entry \<open>a\<close> is a file and is not
  skipped, and the content root holds a directory \<open>a\<close>: publishing completes, the old
  directory is still there with its old member, and the file lies inside it instead of
  replacing it.
\<close>

theorem deploy_files_file_onto_directory:
  "fst (deploy_files sample_config conflict_world) = Inr None
   \<and> \<not> skipped sample_config ''a''
   \<and> lookup (fs conflict_world) [''a''] = Some (File ''new'')
   \<and> lookup (fs conflict_world) [''www'', ''a''] = Some (Dir [(''old'', File ''x'')])
   \<and> lookup (fs (snd (deploy_files sample_config conflict_world))) [''www'', ''a'']
       = Some (Dir [(''old'', File ''x''), (''a'', File ''new'')])"
proof -
  have a: "fst (deploy_files sample_config conflict_world) = Inr None"
    and b: "lookup (fs (snd (deploy_files sample_config conflict_world))) [''www'', ''a'']
              = Some (Dir [(''old'', File ''x''), (''a'', File ''new'')])"
    by (simp_all add: run_conflict)
  have e: "\<not> skipped sample_config ''a''"
    by (simp add: skipped_def excludes_def BACKUP_DIR_def startswith_dot_def sample_config_def)
  have f: "lookup (fs conflict_world) [''a''] = Some (File ''new'')"
    "lookup (fs conflict_world) [''www'', ''a''] = Some (Dir [(''old'', File ''x'')])"
    by (simp_all add: conflict_world_def)
  from a b e f show ?thesis by blast
qed

end
